theory Spec2Isabelle
  imports Main "HOL-Library.Word"
begin

section \<open>The ShambaLuvAirdrop contract\<close>

text \<open>
  A shallow embedding of the Solidity contract \<^verbatim>\<open>ShambaLuvAirdrop\<close>
  (\<^verbatim>\<open>src/unnamed/part_000\<close>). Every external or public function of the contract is
  one definition of the same name; it takes \<^verbatim>\<open>msg.sender\<close>, the arguments and the
  contract's storage, and returns either the error it reverts with (\<open>Inl\<close>) or the
  storage it leaves (\<open>Inr\<close>). A revert undoes every write of the call, so an error
  carries no storage: the storage after a reverted call is the storage before it.
\<close>

subsection \<open>Data\<close>

type_synonym address = "160 word"
type_synonym uint256 = "256 word"

text \<open>\<^verbatim>\<open>struct AirdropConfig\<close>, lines 19-24.\<close>

record AirdropConfig =
  amount :: uint256
  isActive :: bool
  totalClaimed :: uint256
  totalRecipients :: uint256

text \<open>The events of lines 33-38, with their arguments in the order of the source.\<close>

datatype event =
    AirdropClaimed address address uint256
  | AirdropConfigUpdated address uint256 uint256 bool
  | TokensDeposited address address uint256
  | TokensWithdrawn address address uint256
  | TokensRescued address address uint256
  | EmergencyWithdraw address address uint256

text \<open>
  The flag of the reentrancy guard: \<^verbatim>\<open>_status\<close> of \<^verbatim>\<open>ReentrancyGuard\<close>.
\<close>

datatype guard = NOT_ENTERED | ENTERED

text \<open>
  The storage of the contract: the owner kept by \<^verbatim>\<open>Ownable\<close>, the immutable
  \<^verbatim>\<open>defaultToken\<close> (line 16), the two mappings of lines 27 and 30 (a Solidity mapping
  is total: a key never written reads as the zero value), the guard's flag, and the
  log of the events emitted so far, of those the source declares.
\<close>

record state =
  owner :: address
  defaultToken :: address
  tokenConfigs :: "address \<Rightarrow> AirdropConfig"
  hasClaimed :: "address \<Rightarrow> address \<Rightarrow> bool"
  status :: guard
  events :: "event list"

text \<open>
  The ways a call reverts. Each \<^verbatim>\<open>require\<close> message of the source is one
  constructor:
  \<^item> \<open>InvalidDefaultToken\<close>: "Invalid default token address" (line 41);
  \<^item> \<open>InvalidToken\<close>: "Invalid token address";
  \<^item> \<open>InvalidRecipient\<close>: "Invalid recipient address";
  \<^item> \<open>ZeroAmount\<close>: "Amount must be greater than 0";
  \<^item> \<open>AlreadyClaimed\<close>: "Already claimed for this token" (line 65);
  \<^item> \<open>NotActive\<close>: "Airdrop not active for this token" (line 68);
  \<^item> \<open>AmountUnset\<close>: "Airdrop amount not set" (line 69);
  \<^item> \<open>InsufficientFunds\<close>: "Insufficient tokens in contract" (line 73);
  \<^item> \<open>InsufficientBalance\<close>: "Insufficient balance" (withdrawals and rescues);
  \<^item> \<open>TransferFailed\<close>: "Transfer failed";
  \<^item> \<open>Unauthorized\<close>: the revert of \<^verbatim>\<open>onlyOwner\<close>;
  \<^item> \<open>InvalidOwner\<close>: the revert of \<^verbatim>\<open>transferOwnership\<close> for the zero address;
  \<^item> \<open>ReentrantCall\<close>: the revert of \<^verbatim>\<open>nonReentrant\<close>;
  \<^item> \<open>ArithmeticPanic\<close>: the overflow panic of Solidity 0.8 checked arithmetic;
  \<^item> \<open>ExternalCallReverted\<close>: a call to the token contract reverted, which reverts
    the calling function too.
\<close>

datatype error =
    InvalidDefaultToken
  | InvalidToken
  | InvalidRecipient
  | ZeroAmount
  | AlreadyClaimed
  | NotActive
  | AmountUnset
  | InsufficientFunds
  | InsufficientBalance
  | TransferFailed
  | Unauthorized
  | InvalidOwner
  | ReentrantCall
  | ArithmeticPanic
  | ExternalCallReverted

subsection \<open>The token contracts\<close>

text \<open>
  The contract calls three functions of the ERC20 token at the address it is given
  (\<^verbatim>\<open>IERC20(token)\<close>); the token's code is not part of the repository and may be
  anything. What a call of the ledger gets from the tokens is therefore a parameter:
  \<^item> \<open>balanceOf erc20 token\<close> is what \<^verbatim>\<open>IERC20(token).balanceOf(address(this))\<close>
    returns, \<open>None\<close> when that call reverts. \<^verbatim>\<open>balanceOf\<close> is a \<^verbatim>\<open>view\<close> function,
    called statically: it cannot write to the ledger.
  \<^item> \<open>transfer erc20 token to value s\<close> is \<^verbatim>\<open>IERC20(token).transfer(to, value)\<close>,
    called when the ledger's storage is \<open>s\<close>: \<open>None\<close> when the call reverts, else
    the boolean it returns and the ledger's storage when it returns. The storage
    is part of the result because the token may call back into the ledger before
    it returns.
  \<^item> \<open>transferFrom erc20 token from value s\<close> is
    \<^verbatim>\<open>IERC20(token).transferFrom(from, address(this), value)\<close>, likewise.
\<close>

record 's IERC20 =
  balanceOf :: "address \<Rightarrow> uint256 option"
  transfer :: "address \<Rightarrow> address \<Rightarrow> uint256 \<Rightarrow> 's \<Rightarrow> (bool \<times> 's) option"
  transferFrom :: "address \<Rightarrow> address \<Rightarrow> uint256 \<Rightarrow> 's \<Rightarrow> (bool \<times> 's) option"

subsection \<open>Modifiers and arithmetic\<close>

text \<open>
  Modelled from the spec: the "mixin-style guard" with its "global reentrancy flag"
  of section 9, which the source imports
  (\<^verbatim>\<open>@openzeppelin/contracts/security/ReentrancyGuard.sol\<close>, line 6) and which is not
  under \<^verbatim>\<open>src/\<close>. The modifier \<^verbatim>\<open>nonReentrant\<close> reverts when the flag is already
  set, sets it, runs the function body and clears it again. The flag is one per
  contract, not one per function.
\<close>

definition nonReentrant ::
  "('a state_scheme \<Rightarrow> error + 'a state_scheme) \<Rightarrow> 'a state_scheme \<Rightarrow> error + 'a state_scheme"
where
  "nonReentrant body s =
     (if status s = ENTERED then Inl ReentrantCall
      else case body (s\<lparr>status := ENTERED\<rparr>) of
             Inl e \<Rightarrow> Inl e
           | Inr s' \<Rightarrow> Inr (s'\<lparr>status := NOT_ENTERED\<rparr>))"

text \<open>
  Modelled from the spec: the owner check of sections 3 and 4.3 ("an explicit
  immutable identity value checked at the top of every admin operation"), which the
  source imports (\<^verbatim>\<open>@openzeppelin/contracts/access/Ownable.sol\<close>, line 5) and which
  is not under \<^verbatim>\<open>src/\<close>. The modifier \<^verbatim>\<open>onlyOwner\<close> reverts unless the caller is the
  stored owner.
\<close>

definition onlyOwner ::
  "address \<Rightarrow> ('a state_scheme \<Rightarrow> error + 'a state_scheme) \<Rightarrow> 'a state_scheme
     \<Rightarrow> error + 'a state_scheme"
where
  "onlyOwner sender body s = (if sender \<noteq> owner s then Inl Unauthorized else body s)"

text \<open>
  Modelled from the spec: the "inherited access-control behavior" of section 9, that
  is the contract \<^verbatim>\<open>Ownable\<close> which the source imports (line 5) and inherits
  (line 14, \<^verbatim>\<open>is Ownable\<close>), and which is not under \<^verbatim>\<open>src/\<close>. Besides the owner
  check, \<^verbatim>\<open>Ownable\<close> has two external functions, which the source does not
  override and the deployed contract therefore exposes:
  \<^verbatim>\<open>transferOwnership(newOwner)\<close>, for the owner only, makes a non-null address the
  owner, and \<^verbatim>\<open>renounceOwnership()\<close>, for the owner only, leaves the contract with
  the null address as its owner. The spec leaves both out of its scope.
\<close>

definition transferOwnership ::
  "address \<Rightarrow> address \<Rightarrow> 'a state_scheme \<Rightarrow> error + 'a state_scheme"
where
  "transferOwnership sender newOwner =
     onlyOwner sender (\<lambda>s.
       if newOwner = 0 then Inl InvalidOwner else Inr (s\<lparr>owner := newOwner\<rparr>))"

definition renounceOwnership :: "address \<Rightarrow> 'a state_scheme \<Rightarrow> error + 'a state_scheme" where
  "renounceOwnership sender = onlyOwner sender (\<lambda>s. Inr (s\<lparr>owner := 0\<rparr>))"

text \<open>
  \<^verbatim>\<open>pragma solidity ^0.8.23\<close>: \<^verbatim>\<open>+=\<close> and \<^verbatim>\<open>++\<close> on \<^verbatim>\<open>uint256\<close> panic
  on overflow instead of wrapping.
\<close>

definition checked_add :: "uint256 \<Rightarrow> uint256 \<Rightarrow> uint256 option" where
  "checked_add a b = (if unat a + unat b < 2 ^ 256 then Some (a + b) else None)"

definition emit :: "event \<Rightarrow> 'a state_scheme \<Rightarrow> 'a state_scheme" where
  "emit e s = s\<lparr>events := events s @ [e]\<rparr>"

text \<open>
  \<^verbatim>\<open>require(IERC20(token).transfer(...), "Transfer failed")\<close>: the revert of the
  token is the revert of the caller, and a returned \<^verbatim>\<open>false\<close> fails the
  \<^verbatim>\<open>require\<close>.
\<close>

definition require_transfer :: "(bool \<times> 's) option \<Rightarrow> error + 's" where
  "require_transfer r =
     (case r of
        None \<Rightarrow> Inl ExternalCallReverted
      | Some (ok, s) \<Rightarrow> if ok then Inr s else Inl TransferFailed)"

subsection \<open>Construction\<close>

text \<open>
  Lines 40-51. \<^verbatim>\<open>Ownable(msg.sender)\<close> stores the deployer as the owner, the guard
  starts not entered, and the log is empty. The last argument is the part of the
  state beyond the contract's storage (\<open>()\<close> for the storage alone).
\<close>

definition constructor :: "address \<Rightarrow> address \<Rightarrow> 'a \<Rightarrow> error + 'a state_scheme" where
  "constructor sender default_token z =
     (if default_token = 0 then Inl InvalidDefaultToken
      else Inr \<lparr> owner = sender,
                 defaultToken = default_token,
                 tokenConfigs = (\<lambda>_. \<lparr> amount = 0, isActive = False,
                                         totalClaimed = 0, totalRecipients = 0 \<rparr>)
                   (default_token := \<lparr> amount = 1000000000000 * 10 ^ 18, isActive = True,
                                        totalClaimed = 0, totalRecipients = 0 \<rparr>),
                 hasClaimed = (\<lambda>_ _. False),
                 status = NOT_ENTERED,
                 events = [],
                 \<dots> = z \<rparr>)"

subsection \<open>Claiming\<close>

text \<open>
  Lines 75-78, "Mark as claimed": the three writes that precede the transfer.
  \<open>None\<close> is the overflow panic of \<^verbatim>\<open>+=\<close> or \<^verbatim>\<open>++\<close>.
\<close>

definition mark_claimed :: "address \<Rightarrow> address \<Rightarrow> 'a state_scheme \<Rightarrow> 'a state_scheme option" where
  "mark_claimed sender token s =
     (let config = tokenConfigs s token in
      case checked_add (totalClaimed config) (amount config) of
        None \<Rightarrow> None
      | Some claimed \<Rightarrow>
          (case checked_add (totalRecipients config) 1 of
             None \<Rightarrow> None
           | Some recipients \<Rightarrow>
               Some (s\<lparr> hasClaimed := (hasClaimed s)(token := (hasClaimed s token)(sender := True)),
                        tokenConfigs := (tokenConfigs s)
                          (token := config\<lparr> totalClaimed := claimed,
                                            totalRecipients := recipients \<rparr>) \<rparr>)))"

text \<open>
  \<^verbatim>\<open>claimAirdropForToken\<close>, lines 63-84. \<^verbatim>\<open>config\<close> is a storage pointer, so
  \<^verbatim>\<open>config.amount\<close> reads the storage at the moment it is evaluated: the argument
  of the transfer before the call, the argument of the event after it.
\<close>

definition claimAirdropForToken ::
  "'a state_scheme IERC20 \<Rightarrow> address \<Rightarrow> address \<Rightarrow> 'a state_scheme \<Rightarrow> error + 'a state_scheme"
where
  "claimAirdropForToken erc20 sender token =
     nonReentrant (\<lambda>s.
       if token = 0 then Inl InvalidToken
       else if hasClaimed s token sender then Inl AlreadyClaimed
       else if \<not> isActive (tokenConfigs s token) then Inl NotActive
       else if \<not> 0 < amount (tokenConfigs s token) then Inl AmountUnset
       else case balanceOf erc20 token of
              None \<Rightarrow> Inl ExternalCallReverted
            | Some contractBalance \<Rightarrow>
                (if \<not> amount (tokenConfigs s token) \<le> contractBalance then Inl InsufficientFunds
                 else case mark_claimed sender token s of
                        None \<Rightarrow> Inl ArithmeticPanic
                      | Some s1 \<Rightarrow>
                          (case require_transfer
                                  (transfer erc20 token sender (amount (tokenConfigs s1 token)) s1) of
                             Inl e \<Rightarrow> Inl e
                           | Inr s2 \<Rightarrow>
                               Inr (emit (AirdropClaimed token sender
                                            (amount (tokenConfigs s2 token))) s2))))"

text \<open>
  \<^verbatim>\<open>claimAirdrop\<close>, lines 56-58: itself \<^verbatim>\<open>nonReentrant\<close>, it calls the public,
  \<^verbatim>\<open>nonReentrant\<close> function above as an internal call, whose modifier runs again.
\<close>

definition claimAirdrop ::
  "'a state_scheme IERC20 \<Rightarrow> address \<Rightarrow> 'a state_scheme \<Rightarrow> error + 'a state_scheme"
where
  "claimAirdrop erc20 sender =
     nonReentrant (\<lambda>s. claimAirdropForToken erc20 sender (defaultToken s) s)"

subsection \<open>Queries\<close>

text \<open>
  Lines 89-138 and 280-303. The overloads that take no token are suffixed
  \<open>_default\<close>; \<^verbatim>\<open>defaultToken\<close> is immutable, so they read it once. A query
  that reads a balance has no answer when the token reverts.
\<close>

definition hasUserClaimed :: "address \<Rightarrow> address \<Rightarrow> 'a state_scheme \<Rightarrow> bool" where
  "hasUserClaimed token user s = hasClaimed s token user"

definition hasUserClaimed_default :: "address \<Rightarrow> 'a state_scheme \<Rightarrow> bool" where
  "hasUserClaimed_default user s = hasClaimed s (defaultToken s) user"

definition getAirdropStats ::
  "'s IERC20 \<Rightarrow> address \<Rightarrow> 'a state_scheme \<Rightarrow> (uint256 \<times> uint256 \<times> uint256 \<times> uint256 \<times> bool) option"
where
  "getAirdropStats erc20 token s =
     (let config = tokenConfigs s token in
      case balanceOf erc20 token of
        None \<Rightarrow> None
      | Some contractBalance \<Rightarrow>
          Some (amount config, totalClaimed config, totalRecipients config,
                contractBalance, isActive config))"

definition getAirdropStats_default ::
  "'s IERC20 \<Rightarrow> 'a state_scheme \<Rightarrow> (uint256 \<times> uint256 \<times> uint256 \<times> uint256 \<times> bool) option"
where
  "getAirdropStats_default erc20 s =
     (let config = tokenConfigs s (defaultToken s) in
      case balanceOf erc20 (defaultToken s) of
        None \<Rightarrow> None
      | Some contractBalance \<Rightarrow>
          Some (amount config, totalClaimed config, totalRecipients config,
                contractBalance, isActive config))"

definition getTokenBalance :: "'s IERC20 \<Rightarrow> address \<Rightarrow> uint256 option" where
  "getTokenBalance erc20 token = balanceOf erc20 token"

definition getTokenBalance_default :: "'s IERC20 \<Rightarrow> 'a state_scheme \<Rightarrow> uint256 option" where
  "getTokenBalance_default erc20 s = balanceOf erc20 (defaultToken s)"

definition isAirdropActive :: "address \<Rightarrow> 'a state_scheme \<Rightarrow> bool" where
  "isAirdropActive token s = isActive (tokenConfigs s token)"

definition isAirdropActive_default :: "'a state_scheme \<Rightarrow> bool" where
  "isAirdropActive_default s = isActive (tokenConfigs s (defaultToken s))"

subsection \<open>Administration\<close>

text \<open>\<^verbatim>\<open>setAirdropConfig\<close>, lines 143-153.\<close>

definition setAirdropConfig ::
  "address \<Rightarrow> address \<Rightarrow> uint256 \<Rightarrow> bool \<Rightarrow> 'a state_scheme \<Rightarrow> error + 'a state_scheme"
where
  "setAirdropConfig sender token new_amount active =
     onlyOwner sender (\<lambda>s.
       if token = 0 then Inl InvalidToken
       else let oldAmount = amount (tokenConfigs s token) in
            Inr (emit (AirdropConfigUpdated token oldAmount new_amount active)
                   (s\<lparr> tokenConfigs := (tokenConfigs s)
                         (token := (tokenConfigs s token)\<lparr> amount := new_amount,
                                                            isActive := active \<rparr>) \<rparr>)))"

text \<open>\<^verbatim>\<open>setAirdropAmount\<close>, lines 158-168.\<close>

definition setAirdropAmount ::
  "address \<Rightarrow> uint256 \<Rightarrow> 'a state_scheme \<Rightarrow> error + 'a state_scheme"
where
  "setAirdropAmount sender new_amount =
     onlyOwner sender (\<lambda>s.
       if defaultToken s = 0 then Inl InvalidToken
       else let oldAmount = amount (tokenConfigs s (defaultToken s)) in
            Inr (emit (AirdropConfigUpdated (defaultToken s) oldAmount new_amount True)
                   (s\<lparr> tokenConfigs := (tokenConfigs s)
                         (defaultToken s := (tokenConfigs s (defaultToken s))
                            \<lparr> amount := new_amount, isActive := True \<rparr>) \<rparr>)))"

text \<open>\<^verbatim>\<open>depositTokens\<close>, lines 173-179 and 184-190.\<close>

definition depositTokens ::
  "'a state_scheme IERC20 \<Rightarrow> address \<Rightarrow> address \<Rightarrow> uint256 \<Rightarrow> 'a state_scheme
     \<Rightarrow> error + 'a state_scheme"
where
  "depositTokens erc20 sender token value =
     onlyOwner sender (\<lambda>s.
       if token = 0 then Inl InvalidToken
       else if \<not> 0 < value then Inl ZeroAmount
       else case require_transfer (transferFrom erc20 token sender value s) of
              Inl e \<Rightarrow> Inl e
            | Inr s1 \<Rightarrow> Inr (emit (TokensDeposited token sender value) s1))"

definition depositTokens_default ::
  "'a state_scheme IERC20 \<Rightarrow> address \<Rightarrow> uint256 \<Rightarrow> 'a state_scheme \<Rightarrow> error + 'a state_scheme"
where
  "depositTokens_default erc20 sender value =
     onlyOwner sender (\<lambda>s.
       if defaultToken s = 0 then Inl InvalidToken
       else if \<not> 0 < value then Inl ZeroAmount
       else case require_transfer (transferFrom erc20 (defaultToken s) sender value s) of
              Inl e \<Rightarrow> Inl e
            | Inr s1 \<Rightarrow> Inr (emit (TokensDeposited (defaultToken s) sender value) s1))"

text \<open>\<^verbatim>\<open>withdrawTokens\<close>, lines 195-204 and 209-218.\<close>

definition withdrawTokens ::
  "'a state_scheme IERC20 \<Rightarrow> address \<Rightarrow> address \<Rightarrow> uint256 \<Rightarrow> 'a state_scheme
     \<Rightarrow> error + 'a state_scheme"
where
  "withdrawTokens erc20 sender token value =
     onlyOwner sender (\<lambda>s.
       if token = 0 then Inl InvalidToken
       else if \<not> 0 < value then Inl ZeroAmount
       else case balanceOf erc20 token of
              None \<Rightarrow> Inl ExternalCallReverted
            | Some contractBalance \<Rightarrow>
                (if \<not> value \<le> contractBalance then Inl InsufficientBalance
                 else case require_transfer (transfer erc20 token sender value s) of
                        Inl e \<Rightarrow> Inl e
                      | Inr s1 \<Rightarrow> Inr (emit (TokensWithdrawn token sender value) s1)))"

definition withdrawTokens_default ::
  "'a state_scheme IERC20 \<Rightarrow> address \<Rightarrow> uint256 \<Rightarrow> 'a state_scheme \<Rightarrow> error + 'a state_scheme"
where
  "withdrawTokens_default erc20 sender value =
     onlyOwner sender (\<lambda>s.
       if defaultToken s = 0 then Inl InvalidToken
       else if \<not> 0 < value then Inl ZeroAmount
       else case balanceOf erc20 (defaultToken s) of
              None \<Rightarrow> Inl ExternalCallReverted
            | Some contractBalance \<Rightarrow>
                (if \<not> value \<le> contractBalance then Inl InsufficientBalance
                 else case require_transfer (transfer erc20 (defaultToken s) sender value s) of
                        Inl e \<Rightarrow> Inl e
                      | Inr s1 \<Rightarrow> Inr (emit (TokensWithdrawn (defaultToken s) sender value) s1)))"

text \<open>
  \<^verbatim>\<open>emergencyWithdraw\<close>, lines 223-231 and 236-244: with a zero balance the
  \<^verbatim>\<open>if\<close> is skipped, and the call returns without a transfer or an event.
\<close>

definition emergencyWithdraw ::
  "'a state_scheme IERC20 \<Rightarrow> address \<Rightarrow> address \<Rightarrow> 'a state_scheme \<Rightarrow> error + 'a state_scheme"
where
  "emergencyWithdraw erc20 sender token =
     onlyOwner sender (\<lambda>s.
       if token = 0 then Inl InvalidToken
       else case balanceOf erc20 token of
              None \<Rightarrow> Inl ExternalCallReverted
            | Some contractBalance \<Rightarrow>
                if 0 < contractBalance
                then case require_transfer (transfer erc20 token sender contractBalance s) of
                       Inl e \<Rightarrow> Inl e
                     | Inr s1 \<Rightarrow> Inr (emit (EmergencyWithdraw token sender contractBalance) s1)
                else Inr s)"

definition emergencyWithdraw_default ::
  "'a state_scheme IERC20 \<Rightarrow> address \<Rightarrow> 'a state_scheme \<Rightarrow> error + 'a state_scheme"
where
  "emergencyWithdraw_default erc20 sender =
     onlyOwner sender (\<lambda>s.
       if defaultToken s = 0 then Inl InvalidToken
       else case balanceOf erc20 (defaultToken s) of
              None \<Rightarrow> Inl ExternalCallReverted
            | Some contractBalance \<Rightarrow>
                if 0 < contractBalance
                then case require_transfer
                            (transfer erc20 (defaultToken s) sender contractBalance s) of
                       Inl e \<Rightarrow> Inl e
                     | Inr s1 \<Rightarrow>
                         Inr (emit (EmergencyWithdraw (defaultToken s) sender contractBalance) s1)
                else Inr s)"

text \<open>\<^verbatim>\<open>rescueTokens\<close>, lines 251-261, and \<^verbatim>\<open>rescueAllTokens\<close>, lines 266-275.\<close>

definition rescueTokens ::
  "'a state_scheme IERC20 \<Rightarrow> address \<Rightarrow> address \<Rightarrow> address \<Rightarrow> uint256 \<Rightarrow> 'a state_scheme
     \<Rightarrow> error + 'a state_scheme"
where
  "rescueTokens erc20 sender token to value =
     onlyOwner sender (\<lambda>s.
       if token = 0 then Inl InvalidToken
       else if to = 0 then Inl InvalidRecipient
       else if \<not> 0 < value then Inl ZeroAmount
       else case balanceOf erc20 token of
              None \<Rightarrow> Inl ExternalCallReverted
            | Some contractBalance \<Rightarrow>
                (if \<not> value \<le> contractBalance then Inl InsufficientBalance
                 else case require_transfer (transfer erc20 token to value s) of
                        Inl e \<Rightarrow> Inl e
                      | Inr s1 \<Rightarrow> Inr (emit (TokensRescued token to value) s1)))"

definition rescueAllTokens ::
  "'a state_scheme IERC20 \<Rightarrow> address \<Rightarrow> address \<Rightarrow> address \<Rightarrow> 'a state_scheme
     \<Rightarrow> error + 'a state_scheme"
where
  "rescueAllTokens erc20 sender token to =
     onlyOwner sender (\<lambda>s.
       if token = 0 then Inl InvalidToken
       else if to = 0 then Inl InvalidRecipient
       else case balanceOf erc20 token of
              None \<Rightarrow> Inl ExternalCallReverted
            | Some contractBalance \<Rightarrow>
                if 0 < contractBalance
                then case require_transfer (transfer erc20 token to contractBalance s) of
                       Inl e \<Rightarrow> Inl e
                     | Inr s1 \<Rightarrow> Inr (emit (TokensRescued token to contractBalance) s1)
                else Inr s)"

subsection \<open>Transactions\<close>

text \<open>
  The state-changing functions the contract exposes, as calls with their
  arguments: those of the source, and the two it inherits from \<^verbatim>\<open>Ownable\<close>.
\<close>

datatype call =
    ClaimAirdrop
  | ClaimAirdropForToken address
  | SetAirdropConfig address uint256 bool
  | SetAirdropAmount uint256
  | DepositTokens address uint256
  | DepositTokensDefault uint256
  | WithdrawTokens address uint256
  | WithdrawTokensDefault uint256
  | EmergencyWithdrawToken address
  | EmergencyWithdrawDefault
  | RescueTokens address address uint256
  | RescueAllTokens address address
  | TransferOwnership address
  | RenounceOwnership

definition dispatch ::
  "'a state_scheme IERC20 \<Rightarrow> address \<Rightarrow> call \<Rightarrow> 'a state_scheme \<Rightarrow> error + 'a state_scheme"
where
  "dispatch erc20 sender c =
     (case c of
        ClaimAirdrop \<Rightarrow> claimAirdrop erc20 sender
      | ClaimAirdropForToken token \<Rightarrow> claimAirdropForToken erc20 sender token
      | SetAirdropConfig token new_amount active \<Rightarrow> setAirdropConfig sender token new_amount active
      | SetAirdropAmount new_amount \<Rightarrow> setAirdropAmount sender new_amount
      | DepositTokens token value \<Rightarrow> depositTokens erc20 sender token value
      | DepositTokensDefault value \<Rightarrow> depositTokens_default erc20 sender value
      | WithdrawTokens token value \<Rightarrow> withdrawTokens erc20 sender token value
      | WithdrawTokensDefault value \<Rightarrow> withdrawTokens_default erc20 sender value
      | EmergencyWithdrawToken token \<Rightarrow> emergencyWithdraw erc20 sender token
      | EmergencyWithdrawDefault \<Rightarrow> emergencyWithdraw_default erc20 sender
      | RescueTokens token to value \<Rightarrow> rescueTokens erc20 sender token to value
      | RescueAllTokens token to \<Rightarrow> rescueAllTokens erc20 sender token to
      | TransferOwnership newOwner \<Rightarrow> transferOwnership sender newOwner
      | RenounceOwnership \<Rightarrow> renounceOwnership sender)"

text \<open>
  One call into the ledger together with everything the tokens do during it:
  \<open>Tx sender c bal calls ret\<close> is the call \<open>c\<close> by \<open>sender\<close>, during which
  \<^item> the token answers \<^verbatim>\<open>balanceOf(address(this))\<close> with \<open>bal\<close> (\<open>None\<close>: it
    reverts),
  \<^item> the token's \<^verbatim>\<open>transfer\<close> or \<^verbatim>\<open>transferFrom\<close>, if the ledger gets to call it,
    makes the calls \<open>calls\<close> back into the ledger, in this order, each by any sender
    (the token itself or a contract it calls) and each with its own token behaviour,
    and then returns \<open>ret\<close> (\<open>None\<close>: it reverts). A call back that reverts is
    caught by its caller and leaves the ledger as it was.
  Every behaviour of a token towards the ledger is of this form, so a statement for
  all transactions is a statement for all tokens.
\<close>

datatype tx = Tx address call "uint256 option" "tx list" "bool option"

text \<open>
  The ledger with a history variable: \<open>receipts\<close> lists, for every claim that
  went through, the token and the configured amount at the moment of the claim.
  No function of the contract reads or writes it (they are defined for every
  extension of the storage); \<open>exec_tx\<close> alone appends to it.
\<close>

record world = state +
  receipts :: "(address \<times> uint256) list"

definition claim_receipt :: "call \<Rightarrow> world \<Rightarrow> (address \<times> uint256) list" where
  "claim_receipt c w =
     (case c of
        ClaimAirdrop \<Rightarrow> [(defaultToken w, amount (tokenConfigs w (defaultToken w)))]
      | ClaimAirdropForToken token \<Rightarrow> [(token, amount (tokenConfigs w token))]
      | _ \<Rightarrow> [])"

text \<open>
  \<open>exec_tx w t\<close> runs one transaction from \<open>w\<close>; \<open>run w ts\<close> runs a sequence
  of them, a reverted one leaving the ledger as it was. The calls a token makes
  back into the ledger are such a sequence, run from the storage the ledger has
  when it calls the token.
\<close>

fun exec_tx :: "world \<Rightarrow> tx \<Rightarrow> error + world"
  and run :: "world \<Rightarrow> tx list \<Rightarrow> world"
where
  "exec_tx w (Tx sender c bal calls ret) =
     (case dispatch
             \<lparr> balanceOf = (\<lambda>token. bal),
               transfer = (\<lambda>token to value m. map_option (\<lambda>ok. (ok, run m calls)) ret),
               transferFrom = (\<lambda>token from value m. map_option (\<lambda>ok. (ok, run m calls)) ret) \<rparr>
             sender c w of
        Inl e \<Rightarrow> Inl e
      | Inr w' \<Rightarrow> Inr (w'\<lparr> receipts := receipts w' @ claim_receipt c w \<rparr>))"
| "run w [] = w"
| "run w (t # ts) = run (case exec_tx w t of Inl e \<Rightarrow> w | Inr w' \<Rightarrow> w') ts"

text \<open>
  The two calls inherited from \<^verbatim>\<open>Ownable\<close>, and the transactions during which
  one of them is made, by the sender or, at any depth, by a token calling back.
\<close>

fun ownership_call :: "call \<Rightarrow> bool" where
  "ownership_call (TransferOwnership newOwner) = True"
| "ownership_call RenounceOwnership = True"
| "ownership_call _ = False"

fun touches_ownership :: "tx \<Rightarrow> bool" where
  "touches_ownership (Tx sender c bal calls ret) =
     (ownership_call c \<or> (\<exists>t \<in> set calls. touches_ownership t))"

subsection \<open>Receipts, sample tokens and a deployed ledger\<close>

text \<open>What the receipts \<open>rs\<close> add up to for the token \<open>T\<close>, as a natural number.\<close>

definition paid :: "address \<Rightarrow> (address \<times> uint256) list \<Rightarrow> nat" where
  "paid T rs = sum_list (map (\<lambda>(U, a). if U = T then unat a else 0) rs)"

text \<open>
  Three tokens to run the contract against. \<open>quiet_token b\<close> reports the balance
  \<open>b\<close> and its transfers return \<^verbatim>\<open>true\<close> without calling anyone;
  \<open>declining_token b\<close> is the same but its transfers return \<^verbatim>\<open>false\<close>.
  \<open>reentering_token b expected\<close> hands control to the recipient of a transfer (a
  receive hook), who claims again for the same token from within the transfer; the
  transfer returns \<^verbatim>\<open>true\<close> exactly when that claim reverts with \<open>expected\<close>.
\<close>

definition quiet_token :: "uint256 \<Rightarrow> 's IERC20" where
  "quiet_token b =
     \<lparr> balanceOf = (\<lambda>token. Some b),
       transfer = (\<lambda>token to value s. Some (True, s)),
       transferFrom = (\<lambda>token from value s. Some (True, s)) \<rparr>"

definition declining_token :: "uint256 \<Rightarrow> 's IERC20" where
  "declining_token b =
     \<lparr> balanceOf = (\<lambda>token. Some b),
       transfer = (\<lambda>token to value s. Some (False, s)),
       transferFrom = (\<lambda>token from value s. Some (False, s)) \<rparr>"

definition reentering_token :: "uint256 \<Rightarrow> error \<Rightarrow> 'a state_scheme IERC20" where
  "reentering_token b expected =
     \<lparr> balanceOf = (\<lambda>token. Some b),
       transfer = (\<lambda>token to value s.
          case claimAirdropForToken (quiet_token b) to token s of
            Inl e \<Rightarrow> Some (e = expected, s)
          | Inr s' \<Rightarrow> Some (False, s')),
       transferFrom = (\<lambda>token from value s. Some (True, s)) \<rparr>"

text \<open>
  The ledger as the deployer \<open>0x0A\<close> leaves it when constructing the contract with
  the default token \<open>0x70\<close> (see \<open>constructor_genesis\<close> below).
\<close>

definition genesis :: world where
  "genesis =
     \<lparr> owner = 0x0A,
       defaultToken = 0x70,
       tokenConfigs = (\<lambda>_. \<lparr> amount = 0, isActive = False,
                               totalClaimed = 0, totalRecipients = 0 \<rparr>)
         (0x70 := \<lparr> amount = 10 ^ 30, isActive = True,
                     totalClaimed = 0, totalRecipients = 0 \<rparr>),
       hasClaimed = (\<lambda>_ _. False),
       status = NOT_ENTERED,
       events = [],
       receipts = [] \<rparr>"

section \<open>Properties\<close>

subsection \<open>The shape of a call that goes through\<close>

lemma checked_add_Some: "checked_add a b = Some c \<Longrightarrow> c = a + b \<and> unat c = unat a + unat b"
  by (auto simp: checked_add_def unat_word_ariths split: if_splits)

lemma nonReentrant_Inr:
  "nonReentrant body s = Inr s' \<longleftrightarrow>
     status s = NOT_ENTERED \<and> (\<exists>m. body (s\<lparr>status := ENTERED\<rparr>) = Inr m \<and> s' = m\<lparr>status := NOT_ENTERED\<rparr>)"
  by (cases "status s") (auto simp: nonReentrant_def split: sum.splits)

lemma nonReentrant_entered: "status s = ENTERED \<Longrightarrow> nonReentrant body s = Inl ReentrantCall"
  by (simp add: nonReentrant_def)

lemma onlyOwner_Inr: "onlyOwner sender body s = Inr s' \<longleftrightarrow> sender = owner s \<and> body s = Inr s'"
  by (simp add: onlyOwner_def)

lemma require_transfer_Inr: "require_transfer r = Inr s \<longleftrightarrow> r = Some (True, s)"
  by (auto simp: require_transfer_def split: option.splits)

lemma require_transfer_simps:
  "require_transfer None = Inl ExternalCallReverted"
  "require_transfer (Some (True, s)) = Inr s"
  "require_transfer (Some (False, s)) = Inl TransferFailed"
  by (simp_all add: require_transfer_def)

lemma claimAirdrop_reverts: "claimAirdrop erc20 sender s = Inl ReentrantCall"
  by (simp add: claimAirdrop_def claimAirdropForToken_def nonReentrant_def)

lemma claimAirdropForToken_Inr:
  "claimAirdropForToken erc20 A T s = Inr s' \<longleftrightarrow>
     status s = NOT_ENTERED \<and> T \<noteq> 0 \<and> \<not> hasClaimed s T A \<and> isActive (tokenConfigs s T)
     \<and> 0 < amount (tokenConfigs s T)
     \<and> (\<exists>b m m'. balanceOf erc20 T = Some b \<and> amount (tokenConfigs s T) \<le> b
            \<and> mark_claimed A T (s\<lparr>status := ENTERED\<rparr>) = Some m
            \<and> transfer erc20 T A (amount (tokenConfigs m T)) m = Some (True, m')
            \<and> s' = m'\<lparr>status := NOT_ENTERED,
                       events := events m' @ [AirdropClaimed T A (amount (tokenConfigs m' T))]\<rparr>)"
  by (auto simp: claimAirdropForToken_def nonReentrant_Inr require_transfer_Inr emit_def
                 require_transfer_simps
           split: option.splits sum.splits if_splits)

text \<open>Every call that goes through has one of five shapes.\<close>

lemma dispatch_cases [consumes 1, case_names claim config moved idle handed]:
  assumes "dispatch erc20 sender c s = Inr s'"
  obtains
    (claim) T m m' where "c = ClaimAirdropForToken T" "T \<noteq> 0" "status s = NOT_ENTERED"
      "\<not> hasClaimed s T sender" "isActive (tokenConfigs s T)" "0 < amount (tokenConfigs s T)"
      "mark_claimed sender T (s\<lparr>status := ENTERED\<rparr>) = Some m"
      "transfer erc20 T sender (amount (tokenConfigs m T)) m = Some (True, m')"
      "s' = m'\<lparr>status := NOT_ENTERED,
                 events := events m' @ [AirdropClaimed T sender (amount (tokenConfigs m' T))]\<rparr>"
  | (config) T a b where "sender = owner s" "c \<noteq> ClaimAirdrop" "\<And>U. c \<noteq> ClaimAirdropForToken U"
      "s' = s\<lparr>tokenConfigs := (tokenConfigs s)(T := (tokenConfigs s T)\<lparr>amount := a, isActive := b\<rparr>),
                events := events s @ [AirdropConfigUpdated T (amount (tokenConfigs s T)) a b]\<rparr>"
  | (moved) T to v m' e where "sender = owner s" "c \<noteq> ClaimAirdrop" "\<And>U. c \<noteq> ClaimAirdropForToken U"
      "transfer erc20 T to v s = Some (True, m') \<or> transferFrom erc20 T to v s = Some (True, m')"
      "s' = m'\<lparr>events := events m' @ [e]\<rparr>"
  | (idle) "sender = owner s" "c \<noteq> ClaimAirdrop" "\<And>U. c \<noteq> ClaimAirdropForToken U" "s' = s"
  | (handed) n where "sender = owner s" "c \<noteq> ClaimAirdrop" "\<And>U. c \<noteq> ClaimAirdropForToken U"
      "ownership_call c" "s' = s\<lparr>owner := n\<rparr>"
proof (cases c)
  case ClaimAirdrop
  with assms show ?thesis by (simp add: dispatch_def claimAirdrop_reverts)
next
  case (ClaimAirdropForToken T)
  with assms show ?thesis
    by (auto simp: dispatch_def claimAirdropForToken_Inr intro: claim)
next
  case (SetAirdropConfig T a b)
  with assms show ?thesis
    by (auto simp: dispatch_def setAirdropConfig_def onlyOwner_Inr emit_def Let_def
             split: if_splits intro: config)
next
  case (SetAirdropAmount a)
  with assms show ?thesis
    by (auto simp: dispatch_def setAirdropAmount_def onlyOwner_Inr emit_def Let_def
             split: if_splits intro: config)
next
  case (DepositTokens T v)
  with assms show ?thesis
    by (auto simp: dispatch_def depositTokens_def onlyOwner_Inr emit_def require_transfer_Inr
             split: if_splits sum.splits intro: moved)
next
  case (DepositTokensDefault v)
  with assms show ?thesis
    by (auto simp: dispatch_def depositTokens_default_def onlyOwner_Inr emit_def require_transfer_Inr
             split: if_splits sum.splits intro: moved)
next
  case (WithdrawTokens T v)
  with assms show ?thesis
    by (auto simp: dispatch_def withdrawTokens_def onlyOwner_Inr emit_def require_transfer_Inr
             split: if_splits sum.splits option.splits intro: moved)
next
  case (WithdrawTokensDefault v)
  with assms show ?thesis
    by (auto simp: dispatch_def withdrawTokens_default_def onlyOwner_Inr emit_def require_transfer_Inr
             split: if_splits sum.splits option.splits intro: moved)
next
  case (EmergencyWithdrawToken T)
  with assms show ?thesis
    by (auto simp: dispatch_def emergencyWithdraw_def onlyOwner_Inr emit_def require_transfer_Inr
             split: if_splits sum.splits option.splits intro: moved idle)
next
  case EmergencyWithdrawDefault
  with assms show ?thesis
    by (auto simp: dispatch_def emergencyWithdraw_default_def onlyOwner_Inr emit_def require_transfer_Inr
             split: if_splits sum.splits option.splits intro: moved idle)
next
  case (RescueTokens T to v)
  with assms show ?thesis
    by (auto simp: dispatch_def rescueTokens_def onlyOwner_Inr emit_def require_transfer_Inr
             split: if_splits sum.splits option.splits intro: moved)
next
  case (RescueAllTokens T to)
  with assms show ?thesis
    by (auto simp: dispatch_def rescueAllTokens_def onlyOwner_Inr emit_def require_transfer_Inr
             split: if_splits sum.splits option.splits intro: moved idle)
next
  case (TransferOwnership n)
  with assms show ?thesis
    by (auto simp: dispatch_def transferOwnership_def onlyOwner_Inr split: if_splits intro: handed)
next
  case RenounceOwnership
  with assms show ?thesis
    by (auto simp: dispatch_def renounceOwnership_def onlyOwner_Inr intro: handed)
qed


lemma mark_claimed_Some:
  assumes "mark_claimed A T s = Some m"
  shows "m = s\<lparr> hasClaimed := (hasClaimed s)(T := (hasClaimed s T)(A := True)),
               tokenConfigs := (tokenConfigs s)
                 (T := (tokenConfigs s T)
                    \<lparr> totalClaimed := totalClaimed (tokenConfigs s T) + amount (tokenConfigs s T),
                      totalRecipients := totalRecipients (tokenConfigs s T) + 1 \<rparr>) \<rparr>"
    and "unat (totalClaimed (tokenConfigs s T) + amount (tokenConfigs s T))
           = unat (totalClaimed (tokenConfigs s T)) + unat (amount (tokenConfigs s T))"
    and "unat (totalRecipients (tokenConfigs s T) + 1) = unat (totalRecipients (tokenConfigs s T)) + 1"
  using assms
  by (auto simp: mark_claimed_def Let_def split: option.splits dest!: checked_add_Some)

lemma claim_receipt_other:
  "c \<noteq> ClaimAirdrop \<Longrightarrow> (\<And>U. c \<noteq> ClaimAirdropForToken U) \<Longrightarrow> claim_receipt c w = []"
  by (cases c) (auto simp: claim_receipt_def)

lemma exec_tx_cases [consumes 1, case_names claim config moved idle handed]:
  assumes "exec_tx w (Tx sender c bal calls ret) = Inr w'"
  obtains
    (claim) T m where "c = ClaimAirdropForToken T" "T \<noteq> 0" "status w = NOT_ENTERED"
      "\<not> hasClaimed w T sender" "isActive (tokenConfigs w T)" "0 < amount (tokenConfigs w T)"
      "mark_claimed sender T (w\<lparr>status := ENTERED\<rparr>) = Some m" "ret = Some True"
      "w' = (run m calls)\<lparr>status := NOT_ENTERED,
                 events := events (run m calls)
                    @ [AirdropClaimed T sender (amount (tokenConfigs (run m calls) T))],
                 receipts := receipts (run m calls) @ [(T, amount (tokenConfigs w T))]\<rparr>"
  | (config) T a b where "sender = owner w" "\<And>U. c \<noteq> ClaimAirdropForToken U"
      "w' = w\<lparr>tokenConfigs := (tokenConfigs w)(T := (tokenConfigs w T)\<lparr>amount := a, isActive := b\<rparr>),
                events := events w @ [AirdropConfigUpdated T (amount (tokenConfigs w T)) a b]\<rparr>"
  | (moved) e where "sender = owner w" "ret = Some True" "\<And>U. c \<noteq> ClaimAirdropForToken U"
      "w' = (run w calls)\<lparr>events := events (run w calls) @ [e]\<rparr>"
  | (idle) "\<And>U. c \<noteq> ClaimAirdropForToken U" "w' = w"
  | (handed) n where "sender = owner w" "\<And>U. c \<noteq> ClaimAirdropForToken U"
      "ownership_call c" "w' = w\<lparr>owner := n\<rparr>"
proof -
  let ?erc20 = "\<lparr> balanceOf = (\<lambda>token. bal),
               transfer = (\<lambda>token to value m. map_option (\<lambda>ok. (ok, run m calls)) ret),
               transferFrom = (\<lambda>token from value m. map_option (\<lambda>ok. (ok, run m calls)) ret) \<rparr>"
  from assms obtain s' where d: "dispatch ?erc20 sender c w = Inr s'"
    and w': "w' = s'\<lparr> receipts := receipts s' @ claim_receipt c w \<rparr>"
    by (auto split: sum.splits)
  from d show ?thesis
  proof (cases rule: dispatch_cases)
    case (claim T m m')
    then show ?thesis using w' by (auto simp: claim_receipt_def intro!: that(1))
  next
    case (config T a b)
    then show ?thesis using w' by (auto simp: claim_receipt_other intro!: that(2))
  next
    case (moved T to v m' e)
    then show ?thesis using w' by (auto simp: claim_receipt_other intro!: that(3))
  next
    case idle
    then show ?thesis using w' by (auto simp: claim_receipt_other intro!: that(4))
  next
    case (handed n)
    then show ?thesis using w' by (auto simp: claim_receipt_other intro!: that(5))
  qed
qed

lemma mark_claimed_fields:
  assumes "mark_claimed A T s = Some m"
  shows "owner m = owner s" "defaultToken m = defaultToken s" "status m = status s"
    "events m = events s" "state.more m = state.more s"
    "hasClaimed m = (hasClaimed s)(T := (hasClaimed s T)(A := True))"
    "amount (tokenConfigs m U) = amount (tokenConfigs s U)"
    "isActive (tokenConfigs m U) = isActive (tokenConfigs s U)"
    "U \<noteq> T \<Longrightarrow> tokenConfigs m U = tokenConfigs s U"
    "unat (totalClaimed (tokenConfigs m T))
       = unat (totalClaimed (tokenConfigs s T)) + unat (amount (tokenConfigs s T))"
    "unat (totalRecipients (tokenConfigs m T)) = unat (totalRecipients (tokenConfigs s T)) + 1"
  using mark_claimed_Some[OF assms] by (simp_all (no_asm_simp))

lemma exec_tx_run_frame:
  "exec_tx w t = Inr w' \<Longrightarrow>
     defaultToken w' = defaultToken w \<and> status w' = status w
     \<and> (\<forall>T A. hasClaimed w T A \<longrightarrow> hasClaimed w' T A)"
  "defaultToken (run w ts) = defaultToken w
     \<and> status (run w ts) = status w \<and> (\<forall>T A. hasClaimed w T A \<longrightarrow> hasClaimed (run w ts) T A)"
proof (induction w t and w ts arbitrary: w' rule: exec_tx_run.induct)
  case (1 w sender c bal calls ret)
  from "1.prems" show ?case
  proof (cases rule: exec_tx_cases)
    case (claim T m)
    from claim(8) "1.IH"(1)
    have r: "defaultToken (run m calls) = defaultToken m"
      "status (run m calls) = status m"
      "\<And>U B. hasClaimed m U B \<Longrightarrow> hasClaimed (run m calls) U B"
      by blast+
    have m: "defaultToken m = defaultToken w"
      "hasClaimed m = (hasClaimed w)(T := (hasClaimed w T)(sender := True))"
      by (simp_all add: mark_claimed_fields[OF claim(7)])
    have "hasClaimed w' U B" if "hasClaimed w U B" for U B
    proof -
      from that have "hasClaimed m U B" by (auto simp: m)
      then have "hasClaimed (run m calls) U B" by (rule r)
      then show ?thesis by (simp add: claim(9))
    qed
    then show ?thesis by (simp add: claim(3,9) r m)
  next
    case (config T a b)
    then show ?thesis by simp
  next
    case (moved e)
    from moved(2) "1.IH"(1)
    have "defaultToken (run w calls) = defaultToken w
            \<and> status (run w calls) = status w
            \<and> (\<forall>T A. hasClaimed w T A \<longrightarrow> hasClaimed (run w calls) T A)"
      by blast
    with moved show ?thesis by simp
  next
    case idle
    then show ?thesis by simp
  next
    case (handed n)
    then show ?thesis by simp
  qed
next
  case (2 w)
  show ?case by simp
next
  case (3 w t ts)
  show ?case
  proof (cases "exec_tx w t")
    case (Inl e)
    with 3 show ?thesis by simp
  next
    case (Inr w1)
    with "3.IH"(1)[OF Inr] "3.IH"(2) show ?thesis by simp
  qed
qed

text \<open>
  The owner changes in no transaction but one during which \<^verbatim>\<open>transferOwnership\<close>
  or \<^verbatim>\<open>renounceOwnership\<close> is called.
\<close>

lemma exec_tx_run_owner:
  "exec_tx w t = Inr w' \<Longrightarrow> \<not> touches_ownership t \<Longrightarrow> owner w' = owner w"
  "(\<forall>t \<in> set ts. \<not> touches_ownership t) \<Longrightarrow> owner (run w ts) = owner w"
proof (induction w t and w ts arbitrary: w' rule: exec_tx_run.induct)
  case (1 w sender c bal calls ret)
  from "1.prems"(2) have free: "\<not> ownership_call c" "\<forall>t \<in> set calls. \<not> touches_ownership t"
    by simp_all
  from "1.prems"(1) show ?case
  proof (cases rule: exec_tx_cases)
    case (claim T m)
    from claim(8) "1.IH"(1) free(2) have "owner (run m calls) = owner m" by blast
    then show ?thesis by (simp add: claim(9) mark_claimed_fields(1)[OF claim(7)])
  next
    case (config T a b)
    then show ?thesis by simp
  next
    case (moved e)
    from moved(2) "1.IH"(1) free(2) have "owner (run w calls) = owner w" by blast
    then show ?thesis by (simp add: moved(4))
  next
    case idle
    then show ?thesis by simp
  next
    case (handed n)
    with free(1) show ?thesis by simp
  qed
next
  case (2 w)
  show ?case by simp
next
  case (3 w t ts)
  show ?case
  proof (cases "exec_tx w t")
    case (Inl e)
    with 3 show ?thesis by simp
  next
    case (Inr w1)
    with "3.IH"(1)[OF Inr] "3.IH"(2) "3.prems" show ?thesis by simp
  qed
qed

lemma mark_claimed_receipts:
  "mark_claimed A T (w :: world) = Some m \<Longrightarrow> receipts m = receipts w"
  by (drule mark_claimed_Some(1)) simp

lemma paid_simps:
  "paid T [] = 0"
  "paid T (rs @ [(U, a)]) = paid T rs + (if U = T then unat a else 0)"
  by (simp_all add: paid_def)

lemma recipients_counted:
  "exec_tx w t = Inr w' \<Longrightarrow>
     (\<forall>T. unat (totalRecipients (tokenConfigs w T)) = card {A. hasClaimed w T A}) \<Longrightarrow>
     unat (totalRecipients (tokenConfigs w' U)) = card {A. hasClaimed w' U A}"
  "(\<forall>T. unat (totalRecipients (tokenConfigs w T)) = card {A. hasClaimed w T A}) \<Longrightarrow>
     unat (totalRecipients (tokenConfigs (run w ts) U)) = card {A. hasClaimed (run w ts) U A}"
proof (induction w t and w ts arbitrary: w' U and U rule: exec_tx_run.induct)
  case (1 w sender c bal calls ret)
  note inv = "1.prems"(2)
  from "1.prems"(1) show ?case
  proof (cases rule: exec_tx_cases)
    case (claim T m)
    note f = mark_claimed_fields[OF claim(7)]
    have "unat (totalRecipients (tokenConfigs m V)) = card {A. hasClaimed m V A}" for V
    proof (cases "V = T")
      case True
      have "{B. hasClaimed m T B} = insert sender {B. hasClaimed w T B}"
        by (auto simp: f(6))
      with claim(4) have "card {B. hasClaimed m T B} = Suc (card {B. hasClaimed w T B})"
        by simp
      with f(11) inv True show ?thesis by simp
    next
      case False
      with f(6) f(9)[of V] inv show ?thesis by simp
    qed
    with claim(8) "1.IH"(1)
    have "unat (totalRecipients (tokenConfigs (run m calls) U)) = card {A. hasClaimed (run m calls) U A}"
      by blast
    then show ?thesis by (simp add: claim(9))
  next
    case (config T a b)
    with inv show ?thesis by auto
  next
    case (moved e)
    with inv "1.IH"(1)
    have "unat (totalRecipients (tokenConfigs (run w calls) U)) = card {A. hasClaimed (run w calls) U A}"
      by blast
    then show ?thesis by (simp add: moved(4))
  next
    case idle
    with inv show ?thesis by simp
  next
    case (handed n)
    with inv show ?thesis by simp
  qed
next
  case (2 w)
  then show ?case by simp
next
  case (3 w t ts)
  show ?case
  proof (cases "exec_tx w t")
    case (Inl e)
    with 3 show ?thesis by simp
  next
    case (Inr w1)
    from "3.IH"(1)[OF Inr "3.prems"]
    have "\<forall>T. unat (totalRecipients (tokenConfigs w1 T)) = card {A. hasClaimed w1 T A}" by blast
    with "3.IH"(2) Inr show ?thesis by simp
  qed
qed

lemma claimed_paid:
  "exec_tx w t = Inr w' \<Longrightarrow>
     unat (totalClaimed (tokenConfigs w U)) = k + paid U (receipts w) \<Longrightarrow>
     unat (totalClaimed (tokenConfigs w' U)) = k + paid U (receipts w')"
  "unat (totalClaimed (tokenConfigs w U)) = k + paid U (receipts w) \<Longrightarrow>
     unat (totalClaimed (tokenConfigs (run w ts) U)) = k + paid U (receipts (run w ts))"
proof (induction w t and w ts arbitrary: w' k and k rule: exec_tx_run.induct)
  case (1 w sender c bal calls ret)
  note inv = "1.prems"(2)
  from "1.prems"(1) show ?case
  proof (cases rule: exec_tx_cases)
    case (claim T m)
    note f = mark_claimed_fields[OF claim(7)] mark_claimed_receipts[OF claim(7)]
    let ?a = "if T = U then unat (amount (tokenConfigs w T)) else 0"
    have "unat (totalClaimed (tokenConfigs m U)) = (k + ?a) + paid U (receipts m)"
    proof (cases "U = T")
      case True
      with f(10) inv f(12) show ?thesis by simp
    next
      case False
      with f(9)[of U] inv f(12) show ?thesis by simp
    qed
    with claim(8) "1.IH"(1)
    have "unat (totalClaimed (tokenConfigs (run m calls) U)) = (k + ?a) + paid U (receipts (run m calls))"
      by blast
    then show ?thesis by (simp add: claim(9) paid_simps)
  next
    case (config T a b)
    with inv show ?thesis by auto
  next
    case (moved e)
    with inv "1.IH"(1)
    have "unat (totalClaimed (tokenConfigs (run w calls) U)) = k + paid U (receipts (run w calls))"
      by blast
    then show ?thesis by (simp add: moved(4))
  next
    case idle
    with inv show ?thesis by simp
  next
    case (handed n)
    with inv show ?thesis by simp
  qed
next
  case (2 w)
  then show ?case by simp
next
  case (3 w t ts)
  show ?case
  proof (cases "exec_tx w t")
    case (Inl e)
    with 3 show ?thesis by simp
  next
    case (Inr w1)
    from "3.IH"(1)[OF Inr "3.prems"] "3.IH"(2) Inr show ?thesis by simp
  qed
qed

subsection \<open>Running the contract on concrete input\<close>

lemmas run_defs = dispatch_def claimAirdropForToken_def claimAirdrop_def nonReentrant_def
  onlyOwner_def mark_claimed_def checked_add_def require_transfer_def emit_def claim_receipt_def
  setAirdropConfig_def setAirdropAmount_def depositTokens_def withdrawTokens_def
  emergencyWithdraw_def rescueTokens_def rescueAllTokens_def
  transferOwnership_def renounceOwnership_def

lemma constructor_genesis: "constructor 0x0A 0x70 \<lparr>receipts = []\<rparr> = Inr genesis"
  by (simp add: constructor_def genesis_def)

lemma constructor_Inr:
  "constructor deployer dtoken z = Inr s \<longleftrightarrow>
     dtoken \<noteq> 0 \<and>
     s = \<lparr> owner = deployer, defaultToken = dtoken,
           tokenConfigs = (\<lambda>_. \<lparr> amount = 0, isActive = False,
                                   totalClaimed = 0, totalRecipients = 0 \<rparr>)
             (dtoken := \<lparr> amount = 10 ^ 30, isActive = True,
                            totalClaimed = 0, totalRecipients = 0 \<rparr>),
           hasClaimed = (\<lambda>_ _. False), status = NOT_ENTERED, events = [], \<dots> = z \<rparr>"
  by (auto simp: constructor_def)


lemma claim_needs_transfer:
  assumes "ret \<noteq> Some True"
  shows "isl (exec_tx w (Tx A (ClaimAirdropForToken T) bal calls ret))"
proof (cases "exec_tx w (Tx A (ClaimAirdropForToken T) bal calls ret)")
  case (Inl e)
  then show ?thesis by simp
next
  case (Inr w')
  then show ?thesis using assms by (cases rule: exec_tx_cases) auto
qed

section \<open>The claims\<close>

text \<open>
  C1. The claim: \<^verbatim>\<open>claimAirdrop()\<close> behaves as \<^verbatim>\<open>claimAirdropForToken(defaultToken)\<close>
  does, for the same caller in the same state. The code does not: \<^verbatim>\<open>claimAirdrop\<close>
  enters the reentrancy guard and then calls \<^verbatim>\<open>claimAirdropForToken\<close>, which is
  guarded by the same flag and finds it set, so \<^verbatim>\<open>claimAirdrop\<close> reverts in every
  state (\<open>claimAirdrop_reverts\<close>). Here on the freshly deployed ledger, with a token
  that holds the full amount and whose transfer returns \<^verbatim>\<open>true\<close>: the caller
  \<open>0xA1\<close> is paid by \<^verbatim>\<open>claimAirdropForToken(defaultToken)\<close> and is turned away by
  \<^verbatim>\<open>claimAirdrop()\<close>.
\<close>

theorem C1_claimAirdrop_reverts_where_claimAirdropForToken_pays:
  "constructor 0x0A 0x70 \<lparr>receipts = []\<rparr> = Inr genesis
   \<and> claimAirdropForToken (quiet_token (10 ^ 30)) 0xA1 (defaultToken genesis) genesis
       = Inr (genesis\<lparr> tokenConfigs := (tokenConfigs genesis)
                         (0x70 := \<lparr> amount = 10 ^ 30, isActive = True,
                                     totalClaimed = 10 ^ 30, totalRecipients = 1 \<rparr>),
                      hasClaimed := (hasClaimed genesis)
                         (0x70 := (hasClaimed genesis 0x70)(0xA1 := True)),
                      events := [AirdropClaimed 0x70 0xA1 (10 ^ 30)] \<rparr>)
   \<and> claimAirdrop (quiet_token (10 ^ 30)) 0xA1 genesis = Inl ReentrantCall"
  by (simp add: constructor_genesis claimAirdrop_reverts)
     (simp add: run_defs genesis_def quiet_token_def)

text \<open>
  C2. The claim: the owner is fixed at construction, and no operation the contract
  exposes changes which identity passes the owner check. The contract is
  \<^verbatim>\<open>Ownable\<close> (line 14) and so exposes \<^verbatim>\<open>transferOwnership\<close> and
  \<^verbatim>\<open>renounceOwnership\<close>. The counterexample is the deployer \<open>0x0A\<close> of the freshly
  deployed ledger handing the ownership to \<open>0xB0\<close>: before the call the owner check
  lets \<open>0x0A\<close> through, after it \<open>0xB0\<close> and no longer \<open>0x0A\<close>.
\<close>

theorem C2_counterexample:
  "constructor 0x0A 0x70 \<lparr>receipts = []\<rparr> = Inr genesis
   \<and> onlyOwner 0x0A Inr genesis = Inr genesis
   \<and> exec_tx genesis (Tx 0x0A (TransferOwnership 0xB0) None [] None)
       = Inr (genesis\<lparr>owner := 0xB0\<rparr>)
   \<and> onlyOwner 0x0A Inr (genesis\<lparr>owner := 0xB0\<rparr>) = Inl Unauthorized
   \<and> onlyOwner 0xB0 Inr (genesis\<lparr>owner := 0xB0\<rparr>) = Inr (genesis\<lparr>owner := 0xB0\<rparr>)"
  by (simp add: constructor_genesis) (simp add: run_defs genesis_def)

text \<open>
  C2, as amended. The owner is the deployer at construction, and the owner check
  lets the stored owner through and nobody else. No function that the source
  defines changes the owner: through a transaction during which neither
  \<^verbatim>\<open>transferOwnership\<close> nor \<^verbatim>\<open>renounceOwnership\<close> is called (by the sender or by a
  token calling back, at any depth) the owner stays who it was, and so through any
  sequence of such transactions it stays the deployer. The two inherited
  functions revert for everyone but the current owner; called by the owner, the
  first makes the given non-null address the owner and the second the null
  address.
\<close>

theorem C2_owner_changes_only_by_ownership_calls:
  assumes "constructor deployer dtoken z = Inr (w0 :: world)"
  shows "owner w0 = deployer
    \<and> onlyOwner sender body s = (if sender = owner s then body s else Inl Unauthorized)
    \<and> ((\<forall>t \<in> set txs. \<not> touches_ownership t) \<longrightarrow> owner (run w0 txs) = deployer)
    \<and> (\<forall>w t w'. exec_tx w t = Inr w' \<longrightarrow> \<not> touches_ownership t \<longrightarrow> owner w' = owner w)
    \<and> (sender \<noteq> owner s \<longrightarrow>
          transferOwnership sender newOwner s = Inl Unauthorized
          \<and> renounceOwnership sender s = Inl Unauthorized)
    \<and> (newOwner \<noteq> 0 \<longrightarrow>
          transferOwnership (owner s) newOwner s = Inr (s\<lparr>owner := newOwner\<rparr>))
    \<and> renounceOwnership (owner s) s = Inr (s\<lparr>owner := 0\<rparr>)"
proof -
  from assms have "owner w0 = deployer" by (auto simp: constructor_Inr)
  moreover from this have "owner (run w0 txs) = deployer"
    if "\<forall>t \<in> set txs. \<not> touches_ownership t"
    using that exec_tx_run_owner(2)[of txs w0] by simp
  moreover have "owner w' = owner w"
    if "exec_tx w t = Inr w'" and "\<not> touches_ownership t" for w t w'
    using that by (rule exec_tx_run_owner(1))
  ultimately show ?thesis
    by (simp add: onlyOwner_def transferOwnership_def renounceOwnership_def)
qed

theorem C2_witness:
  "owner (run genesis
      [Tx 0xA1 (ClaimAirdropForToken 0x70) (Some (10 ^ 30)) [] (Some True),
       Tx 0x0A (SetAirdropConfig 0x70 70 True) None [] None,
       Tx 0x0A (WithdrawTokens 0x70 5) (Some 9)
          [Tx 0x0A (SetAirdropAmount 3) None [] None] (Some True)])
     = 0x0A
   \<and> onlyOwner 0xA1 Inr genesis = Inl Unauthorized
   \<and> transferOwnership 0xA1 0xB0 genesis = Inl Unauthorized
   \<and> transferOwnership 0x0A 0xB0 genesis = Inr (genesis\<lparr>owner := 0xB0\<rparr>)"
proof -
  have o: "owner genesis = 0x0A" by (simp add: genesis_def)
  from C2_owner_changes_only_by_ownership_calls [OF constructor_genesis,
    where txs = "[Tx 0xA1 (ClaimAirdropForToken 0x70) (Some (10 ^ 30)) [] (Some True),
       Tx 0x0A (SetAirdropConfig 0x70 70 True) None [] None,
       Tx 0x0A (WithdrawTokens 0x70 5) (Some 9)
          [Tx 0x0A (SetAirdropAmount 3) None [] None] (Some True)]"
      and sender = "0xA1" and body = Inr and s = genesis and newOwner = "0xB0"]
  show ?thesis by (simp add: o)
qed

text \<open>
  C3. The claim has three parts. A transfer that fails fails the whole claim, and
  the storage is rolled back: this holds. The claim record and both totals are
  written before the transfer is called: this holds. A claim made from within the
  transfer for the same token and claimant "fails with AlreadyClaimed": it fails,
  but with the error of the reentrancy guard, whose check comes before the check
  of the claim record. The counterexample is the first claim of \<open>0xA1\<close> on the
  freshly deployed ledger. Its first two conjuncts give the storage in which the
  transfer is called and run the claim again in that storage; the last two run
  the whole claim against a token whose recipient claims again from within the
  transfer, and which returns \<^verbatim>\<open>true\<close> only if that inner claim reverts with the
  error it expects: expecting \<open>AlreadyClaimed\<close> it returns \<^verbatim>\<open>false\<close>, expecting
  \<open>ReentrantCall\<close> it returns \<^verbatim>\<open>true\<close>.
\<close>

theorem C3_counterexample:
  "mark_claimed 0xA1 0x70 (genesis\<lparr>status := ENTERED\<rparr>)
     = Some (genesis\<lparr> status := ENTERED,
                      hasClaimed := (hasClaimed genesis)
                         (0x70 := (hasClaimed genesis 0x70)(0xA1 := True)),
                      tokenConfigs := (tokenConfigs genesis)
                         (0x70 := \<lparr> amount = 10 ^ 30, isActive = True,
                                     totalClaimed = 10 ^ 30, totalRecipients = 1 \<rparr>) \<rparr>)
   \<and> claimAirdropForToken (quiet_token (10 ^ 30)) 0xA1 0x70
       (genesis\<lparr> status := ENTERED,
                 hasClaimed := (hasClaimed genesis)
                    (0x70 := (hasClaimed genesis 0x70)(0xA1 := True)),
                 tokenConfigs := (tokenConfigs genesis)
                    (0x70 := \<lparr> amount = 10 ^ 30, isActive = True,
                                totalClaimed = 10 ^ 30, totalRecipients = 1 \<rparr>) \<rparr>)
     = Inl ReentrantCall
   \<and> claimAirdropForToken (reentering_token (10 ^ 30) AlreadyClaimed) 0xA1 0x70 genesis
     = Inl TransferFailed
   \<and> claimAirdropForToken (reentering_token (10 ^ 30) ReentrantCall) 0xA1 0x70 genesis
     = Inr (genesis\<lparr> tokenConfigs := (tokenConfigs genesis)
                         (0x70 := \<lparr> amount = 10 ^ 30, isActive = True,
                                     totalClaimed = 10 ^ 30, totalRecipients = 1 \<rparr>),
                      hasClaimed := (hasClaimed genesis)
                         (0x70 := (hasClaimed genesis 0x70)(0xA1 := True)),
                      events := [AirdropClaimed 0x70 0xA1 (10 ^ 30)] \<rparr>)"
  by (simp add: run_defs genesis_def quiet_token_def reentering_token_def)

text \<open>
  C3, as amended. Take a claim of \<open>T\<close> by \<open>A\<close> that passes every check, and let
  \<open>m\<close> be the storage after the three writes of lines 76-78. Then the token's
  transfer is called in \<open>m\<close>, and what it does decides the claim: if the call
  reverts or returns \<^verbatim>\<open>false\<close>, the claim reverts, so nothing of \<open>m\<close> is kept;
  in \<open>m\<close> the claim record is set and both totals are updated; and every claim
  made in \<open>m\<close>, that is from within the transfer, by whatever caller for whatever
  token and through either entry point, reverts with \<open>ReentrantCall\<close>. As a
  transaction: a claim during which the token's transfer does not return
  \<^verbatim>\<open>true\<close> reverts and leaves the ledger as it was, whatever calls the token made
  back into the ledger before.
\<close>

theorem C3_failed_transfer_rolls_back_and_guard_rejects_reentry:
  assumes "status s = NOT_ENTERED" and "T \<noteq> 0" and "\<not> hasClaimed s T A"
    and "isActive (tokenConfigs s T)" and "0 < amount (tokenConfigs s T)"
    and "balanceOf erc20 T = Some b" and "amount (tokenConfigs s T) \<le> b"
    and "mark_claimed A T (s\<lparr>status := ENTERED\<rparr>) = Some m"
  shows "claimAirdropForToken erc20 A T s =
           (case transfer erc20 T A (amount (tokenConfigs s T)) m of
              None \<Rightarrow> Inl ExternalCallReverted
            | Some (ok, m') \<Rightarrow>
                if ok then Inr (m'\<lparr> status := NOT_ENTERED,
                                    events := events m'
                                      @ [AirdropClaimed T A (amount (tokenConfigs m' T))] \<rparr>)
                else Inl TransferFailed)
    \<and> hasClaimed m T A
    \<and> unat (totalClaimed (tokenConfigs m T))
        = unat (totalClaimed (tokenConfigs s T)) + unat (amount (tokenConfigs s T))
    \<and> unat (totalRecipients (tokenConfigs m T)) = unat (totalRecipients (tokenConfigs s T)) + 1
    \<and> claimAirdropForToken erc20' B U m = Inl ReentrantCall
    \<and> claimAirdrop erc20' B m = Inl ReentrantCall
    \<and> (ret \<noteq> Some True \<longrightarrow>
          isl (exec_tx w (Tx A (ClaimAirdropForToken T) bal calls ret))
          \<and> run w [Tx A (ClaimAirdropForToken T) bal calls ret] = w)"
proof -
  note f = mark_claimed_fields[OF assms(8)]
  have a: "amount (tokenConfigs m T) = amount (tokenConfigs s T)" by (simp add: f(7))
  have "claimAirdropForToken erc20 A T s =
           (case transfer erc20 T A (amount (tokenConfigs s T)) m of
              None \<Rightarrow> Inl ExternalCallReverted
            | Some (ok, m') \<Rightarrow>
                if ok then Inr (m'\<lparr> status := NOT_ENTERED,
                                    events := events m'
                                      @ [AirdropClaimed T A (amount (tokenConfigs m' T))] \<rparr>)
                else Inl TransferFailed)"
    using assms a
    by (simp add: claimAirdropForToken_def nonReentrant_def require_transfer_def emit_def
             split: option.splits)
  moreover have "hasClaimed m T A" by (simp add: f(6))
  moreover have "status m = ENTERED" by (simp add: f(3))
  then have "claimAirdropForToken erc20' B U m = Inl ReentrantCall"
    by (simp add: claimAirdropForToken_def nonReentrant_entered)
  moreover have "isl (exec_tx w (Tx A (ClaimAirdropForToken T) bal calls ret))
          \<and> run w [Tx A (ClaimAirdropForToken T) bal calls ret] = w" if "ret \<noteq> Some True"
  proof -
    from that have i: "isl (exec_tx w (Tx A (ClaimAirdropForToken T) bal calls ret))"
      by (rule claim_needs_transfer)
    then obtain e where "exec_tx w (Tx A (ClaimAirdropForToken T) bal calls ret) = Inl e"
      by (cases "exec_tx w (Tx A (ClaimAirdropForToken T) bal calls ret)") simp_all
    then have "run w [Tx A (ClaimAirdropForToken T) bal calls ret] = w" by simp
    with i show ?thesis by simp
  qed
  ultimately show ?thesis using f(10,11) by (simp add: claimAirdrop_reverts)
qed

theorem C3_witness:
  "claimAirdropForToken (declining_token (10 ^ 30)) 0xA1 0x70 genesis = Inl TransferFailed
   \<and> claimAirdropForToken (quiet_token (10 ^ 30)) 0xA1 0x70
       (genesis\<lparr> status := ENTERED,
                 hasClaimed := (hasClaimed genesis)
                    (0x70 := (hasClaimed genesis 0x70)(0xA1 := True)),
                 tokenConfigs := (tokenConfigs genesis)
                    (0x70 := \<lparr> amount = 10 ^ 30, isActive = True,
                                totalClaimed = 10 ^ 30, totalRecipients = 1 \<rparr>) \<rparr>)
     = Inl ReentrantCall
   \<and> run genesis
        [Tx 0xA1 (ClaimAirdropForToken 0x70) (Some (10 ^ 30))
           [Tx 0x0A (SetAirdropConfig 0x70 5 True) None [] None] (Some False)]
     = genesis"
proof -
  let ?m = "genesis\<lparr> status := ENTERED,
                 hasClaimed := (hasClaimed genesis)
                    (0x70 := (hasClaimed genesis 0x70)(0xA1 := True)),
                 tokenConfigs := (tokenConfigs genesis)
                    (0x70 := \<lparr> amount = 10 ^ 30, isActive = True,
                                totalClaimed = 10 ^ 30, totalRecipients = 1 \<rparr>) \<rparr>"
  have h: "status genesis = NOT_ENTERED" "(0x70 :: address) \<noteq> 0" "\<not> hasClaimed genesis 0x70 0xA1"
    "isActive (tokenConfigs genesis 0x70)" "0 < amount (tokenConfigs genesis 0x70)"
    "balanceOf (declining_token (10 ^ 30) :: world IERC20) 0x70 = Some (10 ^ 30)"
    "amount (tokenConfigs genesis 0x70) \<le> 10 ^ 30"
    "mark_claimed 0xA1 0x70 (genesis\<lparr>status := ENTERED\<rparr>) = Some ?m"
    by (simp_all add: genesis_def declining_token_def mark_claimed_def checked_add_def)
  from C3_failed_transfer_rolls_back_and_guard_rejects_reentry
         [OF h, where erc20' = "quiet_token (10 ^ 30)" and B = "0xA1" and U = "0x70"
            and ret = "Some False" and w = genesis and bal = "Some (10 ^ 30)"
            and calls = "[Tx 0x0A (SetAirdropConfig 0x70 5 True) None [] None]"]
  show ?thesis by (simp add: declining_token_def)
qed

text \<open>
  C4. The claim: once \<open>A\<close> has claimed \<open>T\<close>, the flag stays set and every later
  claim of \<open>T\<close> by \<open>A\<close> fails with AlreadyClaimed. The flag does stay set and
  every later claim does fail, but not always with that error. The counterexample:
  \<open>0xA1\<close> has claimed; then \<open>0xA2\<close> claims, and in the storage in which the
  token's transfer to \<open>0xA2\<close> is called, where the flag of \<open>0xA1\<close> is set, a
  claim by \<open>0xA1\<close> reverts with the error of the reentrancy guard; so does a claim
  of \<open>0xA1\<close> sent through \<^verbatim>\<open>claimAirdrop()\<close> as a transaction of its own.
\<close>

theorem C4_counterexample:
  "exec_tx genesis (Tx 0xA1 (ClaimAirdropForToken 0x70) (Some (10 ^ 30)) [] (Some True))
     = Inr (run genesis [Tx 0xA1 (ClaimAirdropForToken 0x70) (Some (10 ^ 30)) [] (Some True)])
   \<and> mark_claimed 0xA2 0x70
       ((run genesis [Tx 0xA1 (ClaimAirdropForToken 0x70) (Some (10 ^ 30)) [] (Some True)])
          \<lparr>status := ENTERED\<rparr>)
     = Some (genesis\<lparr> tokenConfigs := (tokenConfigs genesis)
                         (0x70 := \<lparr> amount = 10 ^ 30, isActive = True,
                                     totalClaimed = 2 * 10 ^ 30, totalRecipients = 2 \<rparr>),
                      hasClaimed := (hasClaimed genesis)
                         (0x70 := (hasClaimed genesis 0x70)(0xA1 := True, 0xA2 := True)),
                      status := ENTERED,
                      events := [AirdropClaimed 0x70 0xA1 (10 ^ 30)],
                      receipts := [(0x70, 10 ^ 30)] \<rparr>)
   \<and> claimAirdropForToken (quiet_token (10 ^ 30)) 0xA1 0x70
       (genesis\<lparr> tokenConfigs := (tokenConfigs genesis)
                         (0x70 := \<lparr> amount = 10 ^ 30, isActive = True,
                                     totalClaimed = 2 * 10 ^ 30, totalRecipients = 2 \<rparr>),
                      hasClaimed := (hasClaimed genesis)
                         (0x70 := (hasClaimed genesis 0x70)(0xA1 := True, 0xA2 := True)),
                      status := ENTERED,
                      events := [AirdropClaimed 0x70 0xA1 (10 ^ 30)],
                      receipts := [(0x70, 10 ^ 30)] \<rparr>)
     = Inl ReentrantCall
   \<and> exec_tx (run genesis [Tx 0xA1 (ClaimAirdropForToken 0x70) (Some (10 ^ 30)) [] (Some True)])
       (Tx 0xA1 ClaimAirdrop (Some (10 ^ 30)) [] (Some True))
     = Inl ReentrantCall"
  by (simp add: run_defs genesis_def quiet_token_def)

text \<open>
  C4, as amended. Once \<open>A\<close> has claimed the token \<open>T\<close> through
  \<^verbatim>\<open>claimAirdropForToken\<close>, then after any further transactions \<open>txs\<close>, whatever
  the tokens do during them, \<^verbatim>\<open>hasUserClaimed(T, A)\<close> is true, and a claim of
  \<open>T\<close> by \<open>A\<close> sent as a transaction reverts with "Already claimed for this
  token": for every behaviour of the token, so no transfer takes part in the
  outcome, and the ledger is left as it was. A claim of \<open>T\<close> by \<open>A\<close> made
  later from within the transfer of another claim (of any token \<open>U\<close> by any
  \<open>B\<close>, after any calls \<open>cs\<close> the token made back before) finds the flag set
  as well, and reverts with the error of the reentrancy guard, again leaving the
  ledger as it was. In general, for every storage \<open>s\<close>: where the flag is set it
  stays set through any transactions, and there a claim of \<open>T\<close> by \<open>A\<close> reverts,
  with \<open>ReentrantCall\<close> if the guard is set and with \<open>AlreadyClaimed\<close> if not.
\<close>

theorem C4_claimed_stays_claimed_and_later_claims_fail:
  assumes "exec_tx w (Tx A (ClaimAirdropForToken T) bal calls ret) = Inr w1"
  shows "hasUserClaimed T A (run w1 txs)
    \<and> claimAirdropForToken tk A T (run w1 txs) = Inl AlreadyClaimed
    \<and> exec_tx (run w1 txs) (Tx A (ClaimAirdropForToken T) bal' calls' ret') = Inl AlreadyClaimed
    \<and> run (run w1 txs) [Tx A (ClaimAirdropForToken T) bal' calls' ret'] = run w1 txs
    \<and> (mark_claimed B U ((run w1 txs)\<lparr>status := ENTERED\<rparr>) = Some m \<longrightarrow>
          hasUserClaimed T A (run m cs)
          \<and> claimAirdropForToken tk A T (run m cs) = Inl ReentrantCall
          \<and> exec_tx (run m cs) (Tx A (ClaimAirdropForToken T) bal' calls' ret')
              = Inl ReentrantCall
          \<and> run (run m cs) [Tx A (ClaimAirdropForToken T) bal' calls' ret'] = run m cs)
    \<and> (hasClaimed s T A \<longrightarrow>
          hasClaimed (run s ts) T A
          \<and> claimAirdropForToken tk A T s
              = Inl (if status s = ENTERED then ReentrantCall else AlreadyClaimed))"
proof -
  from assms have "T \<noteq> 0 \<and> status w1 = NOT_ENTERED \<and> hasClaimed w1 T A"
  proof (cases rule: exec_tx_cases)
    case (claim U m)
    then have "U = T" by simp
    from mark_claimed_fields(6)[OF claim(7)] have "hasClaimed m U A" by simp
    with exec_tx_run_frame(2)[of m calls] have "hasClaimed (run m calls) U A" by blast
    with claim \<open>U = T\<close> show ?thesis by simp
  qed blast+
  then have w1: "T \<noteq> 0" "status w1 = NOT_ENTERED" "hasClaimed w1 T A" by simp_all
  have gen: "claimAirdropForToken e A T x
               = Inl (if status x = ENTERED then ReentrantCall else AlreadyClaimed)"
    if "hasClaimed x T A" for e :: "world IERC20" and x :: world
    using that w1(1) by (simp add: claimAirdropForToken_def nonReentrant_def)
  have keep: "hasClaimed (run x ts) T A" if "hasClaimed x T A" for x :: world and ts
    using that exec_tx_run_frame(2)[of x ts] by blast
  let ?w = "run w1 txs"
  from w1 exec_tx_run_frame(2)[of w1 txs]
  have w: "status ?w = NOT_ENTERED" "hasClaimed ?w T A" by auto
  have c: "claimAirdropForToken e A T ?w = Inl AlreadyClaimed" for e :: "world IERC20"
    using w by (simp add: gen)
  then have x: "exec_tx ?w (Tx A (ClaimAirdropForToken T) bal' calls' ret') = Inl AlreadyClaimed"
    by (simp add: dispatch_def)
  have inner: "hasUserClaimed T A (run m cs)
          \<and> claimAirdropForToken tk A T (run m cs) = Inl ReentrantCall
          \<and> exec_tx (run m cs) (Tx A (ClaimAirdropForToken T) bal' calls' ret')
              = Inl ReentrantCall
          \<and> run (run m cs) [Tx A (ClaimAirdropForToken T) bal' calls' ret'] = run m cs"
    if mk: "mark_claimed B U (?w\<lparr>status := ENTERED\<rparr>) = Some m"
  proof -
    note f = mark_claimed_fields[OF mk]
    from w(2) have "hasClaimed m T A" by (auto simp: f(6))
    then have h: "hasClaimed (run m cs) T A" by (rule keep)
    have "status m = ENTERED" by (simp add: f(3))
    with exec_tx_run_frame(2)[of m cs] have s: "status (run m cs) = ENTERED" by simp
    from h s have r: "claimAirdropForToken e A T (run m cs) = Inl ReentrantCall"
      for e :: "world IERC20"
      by (simp add: gen)
    then have "exec_tx (run m cs) (Tx A (ClaimAirdropForToken T) bal' calls' ret')
                 = Inl ReentrantCall"
      by (simp add: dispatch_def)
    with h r show ?thesis by (simp add: hasUserClaimed_def)
  qed
  have a1: "hasUserClaimed T A ?w" using w by (simp add: hasUserClaimed_def)
  have a4: "run ?w [Tx A (ClaimAirdropForToken T) bal' calls' ret'] = ?w" using x by simp
  have a6: "hasClaimed s T A \<longrightarrow>
          hasClaimed (run s ts) T A
          \<and> claimAirdropForToken tk A T s
              = Inl (if status s = ENTERED then ReentrantCall else AlreadyClaimed)"
    using gen keep by blast
  from a1 c[of tk] x a4 inner a6 show ?thesis by blast
qed

theorem C4_witness:
  "exec_tx genesis (Tx 0xA1 (ClaimAirdropForToken 0x70) (Some (10 ^ 30)) [] (Some True))
     = Inr (run genesis [Tx 0xA1 (ClaimAirdropForToken 0x70) (Some (10 ^ 30)) [] (Some True)])
   \<and> hasUserClaimed 0x70 0xA1
       (run (run genesis [Tx 0xA1 (ClaimAirdropForToken 0x70) (Some (10 ^ 30)) [] (Some True)])
          [Tx 0x0A (SetAirdropConfig 0x70 5 False) None [] None,
           Tx 0x0A (SetAirdropConfig 0x70 7 True) None [] None])
   \<and> exec_tx
       (run (run genesis [Tx 0xA1 (ClaimAirdropForToken 0x70) (Some (10 ^ 30)) [] (Some True)])
          [Tx 0x0A (SetAirdropConfig 0x70 5 False) None [] None,
           Tx 0x0A (SetAirdropConfig 0x70 7 True) None [] None])
       (Tx 0xA1 (ClaimAirdropForToken 0x70) (Some 9) [] (Some True))
     = Inl AlreadyClaimed
   \<and> claimAirdropForToken (quiet_token 9) 0xA1 0x70
       (genesis\<lparr> tokenConfigs := (tokenConfigs genesis)
                         (0x70 := \<lparr> amount = 7, isActive = True,
                                     totalClaimed = 10 ^ 30 + 7, totalRecipients = 2 \<rparr>),
                      hasClaimed := (hasClaimed genesis)
                         (0x70 := (hasClaimed genesis 0x70)(0xA1 := True, 0xA2 := True)),
                      status := ENTERED,
                      events := [AirdropClaimed 0x70 0xA1 (10 ^ 30),
                                 AirdropConfigUpdated 0x70 (10 ^ 30) 5 False,
                                 AirdropConfigUpdated 0x70 5 7 True],
                      receipts := [(0x70, 10 ^ 30)] \<rparr>)
     = Inl ReentrantCall"
proof -
  let ?txs = "[Tx 0x0A (SetAirdropConfig 0x70 5 False) None [] None,
           Tx 0x0A (SetAirdropConfig 0x70 7 True) None [] None]"
  let ?m = "genesis\<lparr> tokenConfigs := (tokenConfigs genesis)
                         (0x70 := \<lparr> amount = 7, isActive = True,
                                     totalClaimed = 10 ^ 30 + 7, totalRecipients = 2 \<rparr>),
                      hasClaimed := (hasClaimed genesis)
                         (0x70 := (hasClaimed genesis 0x70)(0xA1 := True, 0xA2 := True)),
                      status := ENTERED,
                      events := [AirdropClaimed 0x70 0xA1 (10 ^ 30),
                                 AirdropConfigUpdated 0x70 (10 ^ 30) 5 False,
                                 AirdropConfigUpdated 0x70 5 7 True],
                      receipts := [(0x70, 10 ^ 30)] \<rparr>"
  have h: "exec_tx genesis (Tx 0xA1 (ClaimAirdropForToken 0x70) (Some (10 ^ 30)) [] (Some True))
     = Inr (run genesis [Tx 0xA1 (ClaimAirdropForToken 0x70) (Some (10 ^ 30)) [] (Some True)])"
    by (simp add: run_defs genesis_def)
  have mk: "mark_claimed 0xA2 0x70
      ((run (run genesis [Tx 0xA1 (ClaimAirdropForToken 0x70) (Some (10 ^ 30)) [] (Some True)])
          ?txs)\<lparr>status := ENTERED\<rparr>) = Some ?m"
    by (simp add: run_defs genesis_def)
  show ?thesis
    using h mk C4_claimed_stays_claimed_and_later_claims_fail [OF h,
      where txs = ?txs and tk = "quiet_token 9" and bal' = "Some 9" and calls' = "[]"
        and ret' = "Some True" and B = "0xA2" and U = "0x70" and m = ?m and cs = "[]"]
    by simp
qed




text \<open>
  C6. \<open>exec_tx\<close> appends to \<open>receipts\<close>, for each claim that goes through, the
  token and the amount configured for it when the claim was made. After any
  sequence of transactions from deployment, whatever the tokens do during them,
  \<^verbatim>\<open>totalClaimed\<close> of \<open>T\<close> is the sum of the amounts of the receipts of \<open>T\<close>, as
  natural numbers: the checked addition of line 77 never wraps. The witness changes
  the amount between two claims: the total is \<open>10^30 + 70\<close>, not twice the
  current amount \<open>70\<close>.
\<close>

theorem C6_totalClaimed_is_sum_of_amounts_paid:
  assumes "constructor deployer dtoken \<lparr>receipts = []\<rparr> = Inr w0"
  shows "unat (totalClaimed (tokenConfigs (run w0 txs) T)) = paid T (receipts (run w0 txs))"
proof -
  from assms have "unat (totalClaimed (tokenConfigs w0 T)) = 0 + paid T (receipts w0)"
    by (auto simp: constructor_Inr paid_simps)
  from claimed_paid(2)[OF this] show ?thesis by simp
qed

theorem C6_witness:
  "receipts (run genesis
      [Tx 0xA1 (ClaimAirdropForToken 0x70) (Some (10 ^ 30)) [] (Some True),
       Tx 0x0A (SetAirdropConfig 0x70 70 True) None [] None,
       Tx 0xA2 (ClaimAirdropForToken 0x70) (Some 100) [] (Some True)])
     = [(0x70, 10 ^ 30), (0x70, 70)]
   \<and> unat (totalClaimed (tokenConfigs (run genesis
      [Tx 0xA1 (ClaimAirdropForToken 0x70) (Some (10 ^ 30)) [] (Some True),
       Tx 0x0A (SetAirdropConfig 0x70 70 True) None [] None,
       Tx 0xA2 (ClaimAirdropForToken 0x70) (Some 100) [] (Some True)]) 0x70))
     = 10 ^ 30 + 70
   \<and> amount (tokenConfigs (run genesis
      [Tx 0xA1 (ClaimAirdropForToken 0x70) (Some (10 ^ 30)) [] (Some True),
       Tx 0x0A (SetAirdropConfig 0x70 70 True) None [] None,
       Tx 0xA2 (ClaimAirdropForToken 0x70) (Some 100) [] (Some True)]) 0x70)
     = 70"
proof -
  let ?txs = "[Tx 0xA1 (ClaimAirdropForToken 0x70) (Some (10 ^ 30)) [] (Some True),
       Tx 0x0A (SetAirdropConfig 0x70 70 True) None [] None,
       Tx 0xA2 (ClaimAirdropForToken 0x70) (Some 100) [] (Some True)]"
  have r: "receipts (run genesis ?txs) = [(0x70, 10 ^ 30), (0x70, 70)]"
    by (simp add: run_defs genesis_def)
  have a: "amount (tokenConfigs (run genesis ?txs) 0x70) = 70"
    by (simp add: run_defs genesis_def)
  from C6_totalClaimed_is_sum_of_amounts_paid [OF constructor_genesis, of ?txs "0x70"] r a
  show ?thesis by (simp add: paid_def)
qed

text \<open>
  C7. After any sequence of transactions from deployment, whatever the tokens do
  during them, \<^verbatim>\<open>totalRecipients\<close> of \<open>T\<close> is the number of addresses whose
  claim record for \<open>T\<close> is set, and the equation holds again after one more
  transaction, whichever it is. It holds as well in the storage a token sees when
  the ledger calls it (\<open>recipients_counted\<close> is the step, for every call at every
  depth).
\<close>

theorem C7_totalRecipients_counts_claimants:
  assumes "constructor deployer dtoken z = Inr (w0 :: world)"
  shows "unat (totalRecipients (tokenConfigs (run w0 txs) T))
           = card {A. hasClaimed (run w0 txs) T A}
    \<and> (\<forall>t w'. exec_tx (run w0 txs) t = Inr w' \<longrightarrow>
          unat (totalRecipients (tokenConfigs w' T)) = card {A. hasClaimed w' T A})"
proof -
  from assms
  have "\<forall>U. unat (totalRecipients (tokenConfigs w0 U)) = card {A. hasClaimed w0 U A}"
    by (auto simp: constructor_Inr)
  then have r: "unat (totalRecipients (tokenConfigs (run w0 ts) U))
                  = card {A. hasClaimed (run w0 ts) U A}" for ts U
    by (rule recipients_counted(2))
  then have "unat (totalRecipients (tokenConfigs w' T)) = card {A. hasClaimed w' T A}"
    if "exec_tx (run w0 txs) t = Inr w'" for t w'
    using that recipients_counted(1)[of "run w0 txs" t w' T] by blast
  with r show ?thesis by blast
qed

theorem C7_witness:
  "card {A. hasClaimed (run genesis
      [Tx 0xA1 (ClaimAirdropForToken 0x70) (Some (10 ^ 30)) [] (Some True),
       Tx 0xA1 (ClaimAirdropForToken 0x70) (Some (10 ^ 30)) [] (Some True),
       Tx 0xA2 (ClaimAirdropForToken 0x70) (Some (10 ^ 30)) [] (Some True)]) 0x70 A} = 2"
  using C7_totalRecipients_counts_claimants [OF constructor_genesis,
    of "[Tx 0xA1 (ClaimAirdropForToken 0x70) (Some (10 ^ 30)) [] (Some True),
       Tx 0xA1 (ClaimAirdropForToken 0x70) (Some (10 ^ 30)) [] (Some True),
       Tx 0xA2 (ClaimAirdropForToken 0x70) (Some (10 ^ 30)) [] (Some True)]" "0x70"]
  by (simp add: run_defs genesis_def)

text \<open>
  C8. Called by the owner for a non-null token, \<^verbatim>\<open>setAirdropConfig\<close> succeeds for
  every amount and flag (zero and active included), stores both, and changes
  nothing else but the event log: not the totals of the token, no claim record, no
  other token's configuration. The witness sets the amount to zero with the flag
  on; the next claim then reverts with "Airdrop amount not set".
\<close>

theorem C8_setAirdropConfig_overwrites_and_frames:
  assumes "sender = owner s" and "T \<noteq> 0"
  shows "\<exists>s'. setAirdropConfig sender T a b s = Inr s'
    \<and> amount (tokenConfigs s' T) = a \<and> isActive (tokenConfigs s' T) = b
    \<and> totalClaimed (tokenConfigs s' T) = totalClaimed (tokenConfigs s T)
    \<and> totalRecipients (tokenConfigs s' T) = totalRecipients (tokenConfigs s T)
    \<and> hasClaimed s' = hasClaimed s
    \<and> (\<forall>U. U \<noteq> T \<longrightarrow> tokenConfigs s' U = tokenConfigs s U)
    \<and> owner s' = owner s \<and> defaultToken s' = defaultToken s \<and> status s' = status s
    \<and> events s' = events s @ [AirdropConfigUpdated T (amount (tokenConfigs s T)) a b]"
  using assms by (simp add: setAirdropConfig_def onlyOwner_def emit_def Let_def)

theorem C8_witness:
  "setAirdropConfig 0x0A 0x70 0 True genesis
     = Inr (genesis\<lparr> tokenConfigs := (tokenConfigs genesis)
                        (0x70 := \<lparr> amount = 0, isActive = True,
                                    totalClaimed = 0, totalRecipients = 0 \<rparr>),
                     events := [AirdropConfigUpdated 0x70 (10 ^ 30) 0 True] \<rparr>)
   \<and> claimAirdropForToken (quiet_token (10 ^ 30)) 0xA1 0x70
       (genesis\<lparr> tokenConfigs := (tokenConfigs genesis)
                        (0x70 := \<lparr> amount = 0, isActive = True,
                                    totalClaimed = 0, totalRecipients = 0 \<rparr>),
                     events := [AirdropConfigUpdated 0x70 (10 ^ 30) 0 True] \<rparr>)
     = Inl AmountUnset"
proof -
  have o: "(0x0A :: address) = owner genesis" and n: "(0x70 :: address) \<noteq> 0"
    by (simp_all add: genesis_def)
  from C8_setAirdropConfig_overwrites_and_frames [OF o n, of 0 True]
  show ?thesis
    by (simp add: run_defs genesis_def quiet_token_def)
qed

text \<open>
  C9. Called by the owner for a non-null token whose balance reads zero,
  \<^verbatim>\<open>emergencyWithdraw\<close> returns with the storage unchanged (no event either), for
  every behaviour of the token's transfer: the transfer is not called. The witness
  runs it against a token whose transfer would return \<^verbatim>\<open>false\<close>.
\<close>

theorem C9_emergencyWithdraw_of_nothing:
  assumes "sender = owner s" and "T \<noteq> 0" and "balanceOf erc20 T = Some 0"
  shows "emergencyWithdraw erc20 sender T s = Inr s"
  using assms by (simp add: emergencyWithdraw_def onlyOwner_def)

theorem C9_witness:
  "emergencyWithdraw (declining_token 0) 0x0A 0x70 genesis = Inr genesis"
proof -
  have o: "(0x0A :: address) = owner genesis" and n: "(0x70 :: address) \<noteq> 0"
    and b: "balanceOf (declining_token 0 :: world IERC20) 0x70 = Some 0"
    by (simp_all add: genesis_def declining_token_def)
  from C9_emergencyWithdraw_of_nothing [OF o n b] show ?thesis .
qed

text \<open>
  C10. Deployment with a non-null default token succeeds and leaves the default
  token configured with the amount \<open>10^12 * 10^18\<close>, active, with zero totals, so
  that a first claim goes through as soon as the ledger holds the amount; the owner
  is the deployer. In every state the ledger reaches afterwards,
  \<^verbatim>\<open>setAirdropAmount\<close> reverts for everyone but the owner of that state (the
  deployer, unless the ownership was handed on), and for the owner it stores the
  new amount for the default token
  and sets its flag, whatever the amount (zero included) and whatever the flag was,
  leaving the totals, the other tokens and the claim records as they were.
\<close>

theorem C10_default_airdrop_live_from_deployment:
  assumes "dtoken \<noteq> 0"
  shows "\<exists>w0 :: world. constructor deployer dtoken z = Inr w0
    \<and> owner w0 = deployer
    \<and> tokenConfigs w0 dtoken = \<lparr> amount = 1000000000000 * 10 ^ 18, isActive = True,
                                   totalClaimed = 0, totalRecipients = 0 \<rparr>
    \<and> (1000000000000 * 10 ^ 18 \<le> b \<longrightarrow>
          \<not> isl (claimAirdropForToken (quiet_token b) A dtoken w0))
    \<and> (sender \<noteq> owner (run w0 txs) \<longrightarrow>
          setAirdropAmount sender a (run w0 txs) = Inl Unauthorized)
    \<and> (\<exists>s'. setAirdropAmount (owner (run w0 txs)) a (run w0 txs) = Inr s'
          \<and> amount (tokenConfigs s' dtoken) = a
          \<and> isActive (tokenConfigs s' dtoken)
          \<and> totalClaimed (tokenConfigs s' dtoken) = totalClaimed (tokenConfigs (run w0 txs) dtoken)
          \<and> totalRecipients (tokenConfigs s' dtoken)
              = totalRecipients (tokenConfigs (run w0 txs) dtoken)
          \<and> (\<forall>U. U \<noteq> dtoken \<longrightarrow> tokenConfigs s' U = tokenConfigs (run w0 txs) U)
          \<and> hasClaimed s' = hasClaimed (run w0 txs))"
proof -
  from assms obtain w0 :: world where c: "constructor deployer dtoken z = Inr w0"
    by (auto simp: constructor_Inr)
  then have cfg: "tokenConfigs w0 dtoken = \<lparr> amount = 1000000000000 * 10 ^ 18, isActive = True,
                                   totalClaimed = 0, totalRecipients = 0 \<rparr>"
    and w0: "owner w0 = deployer" "defaultToken w0 = dtoken" "status w0 = NOT_ENTERED"
      "hasClaimed w0 = (\<lambda>_ _. False)"
    by (auto simp: constructor_Inr)
  have live: "\<not> isl (claimAirdropForToken (quiet_token b) A dtoken w0)"
    if "1000000000000 * 10 ^ 18 \<le> b"
    using that assms cfg w0
    by (simp add: claimAirdropForToken_def nonReentrant_def quiet_token_def mark_claimed_def
          checked_add_def require_transfer_def emit_def)
  from w0 exec_tx_run_frame(2)[of w0 txs]
  have r: "defaultToken (run w0 txs) = dtoken" by simp
  from r assms have
    "sender \<noteq> owner (run w0 txs) \<longrightarrow> setAirdropAmount sender a (run w0 txs) = Inl Unauthorized"
    by (simp add: setAirdropAmount_def onlyOwner_def)
  moreover from r assms
  have "\<exists>s'. setAirdropAmount (owner (run w0 txs)) a (run w0 txs) = Inr s'
          \<and> amount (tokenConfigs s' dtoken) = a
          \<and> isActive (tokenConfigs s' dtoken)
          \<and> totalClaimed (tokenConfigs s' dtoken) = totalClaimed (tokenConfigs (run w0 txs) dtoken)
          \<and> totalRecipients (tokenConfigs s' dtoken)
              = totalRecipients (tokenConfigs (run w0 txs) dtoken)
          \<and> (\<forall>U. U \<noteq> dtoken \<longrightarrow> tokenConfigs s' U = tokenConfigs (run w0 txs) U)
          \<and> hasClaimed s' = hasClaimed (run w0 txs)"
    by (simp add: setAirdropAmount_def onlyOwner_def emit_def Let_def)
  ultimately show ?thesis using c cfg live w0(1) by blast
qed

theorem C10_witness:
  "constructor 0x0A 0x70 \<lparr>receipts = []\<rparr> = Inr genesis
   \<and> tokenConfigs genesis 0x70 = \<lparr> amount = 10 ^ 30, isActive = True,
                                    totalClaimed = 0, totalRecipients = 0 \<rparr>
   \<and> setAirdropAmount 0x0A 0 (run genesis [Tx 0x0A (SetAirdropConfig 0x70 5 False) None [] None])
     = Inr (genesis\<lparr> tokenConfigs := (tokenConfigs genesis)
                        (0x70 := \<lparr> amount = 0, isActive = True,
                                    totalClaimed = 0, totalRecipients = 0 \<rparr>),
                     events := [AirdropConfigUpdated 0x70 (10 ^ 30) 5 False,
                                AirdropConfigUpdated 0x70 5 0 True] \<rparr>)"
proof -
  have n: "(0x70 :: address) \<noteq> 0" by simp
  from C10_default_airdrop_live_from_deployment [OF n, of "0x0A" "\<lparr>receipts = []\<rparr>"]
  show ?thesis by (simp add: run_defs genesis_def constructor_def)
qed

end
